theory Spec2Isabelle
  imports Complex_Main "HOL-Library.Word" "HOL-Library.Code_Target_Nat"
begin

unbundle bit_operations_syntax

section \<open>The heatmap interpolation compute shader\<close>

text \<open>
  The model follows the WGSL text held in \<open>interpolation.shaderCode\<close> of
  \<^verbatim>\<open>src/ts/Series/Heatmap/HeatmapSeriesDefaults.ts\<close>. Colours (\<open>u32\<close> values that
  take part in shifts and masks) are 32-bit words. Coordinates, indices and counters
  (\<open>u32\<close> values that are only added, multiplied and compared) are natural numbers
  with the 32-bit wrap-around written out as \<open>mod 2 ^ 32\<close> at each operation of the
  source that can wrap. The \<open>f32\<close> channel values and luminances are idealised as
  exact rationals.
\<close>

type_synonym u32 = "32 word"
type_synonym vec3f = "rat \<times> rat \<times> rat"
type_synonym vec2u = "nat \<times> nat"
type_synonym vec3u = "nat \<times> nat \<times> nat"

subsection \<open>Colour packing and luminance\<close>

definition RGBA :: "u32 \<Rightarrow> u32 \<Rightarrow> u32 \<Rightarrow> u32 \<Rightarrow> u32" where
  "RGBA r g b a = (push_bit 24 r) OR (push_bit 16 g) OR (push_bit 8 b) OR a"

definition colorVector :: "u32 \<Rightarrow> vec3f" where
  "colorVector color =
     (let r = (drop_bit 24 color) AND 0xff;
          b = (drop_bit 16 color) AND 0xff;
          g = (drop_bit 8 color) AND 0xff
      in (of_nat (unat r) / 255, of_nat (unat g) / 255, of_nat (unat b) / 255))"

definition kSRGBLuminanceFactors :: vec3f where
  "kSRGBLuminanceFactors = (2126 / 10000, 7152 / 10000, 722 / 10000)"

definition dot :: "vec3f \<Rightarrow> vec3f \<Rightarrow> rat" where
  "dot u v = (case u of (u1, u2, u3) \<Rightarrow> case v of (v1, v2, v3) \<Rightarrow>
                u1 * v1 + u2 * v2 + u3 * v3)"

definition saturate :: "rat \<Rightarrow> rat" where
  "saturate x = min (max x 0) 1"

definition srgbLuminance :: "u32 \<Rightarrow> rat" where
  "srgbLuminance color =
     (let color_vector = colorVector color
      in saturate (dot color_vector kSRGBLuminanceFactors))"

subsection \<open>Buffers, workgroup memory and invocations\<close>

text \<open>
  \<open>Params\<close> is the uniform struct of the shader. \<open>Storage\<close> holds the storage
  bindings: \<open>resultArrayList\<close>, the counter \<open>belowMinMatrix.length\<close>,
  \<open>pixelData\<close> and \<open>debugData\<close> (the array \<open>belowMinMatrix.vectors\<close> is never
  accessed by the shader and is left out). \<open>Workgroup\<close> holds the four
  \<open>var<workgroup>\<close> variables, and \<open>Invocation\<close> the built-in inputs of \<open>main\<close>.
\<close>

record Params =
  width :: nat
  height :: nat
  debug :: nat

record Storage =
  resultArrayList :: "u32 list"
  belowMinMatrix_length :: nat
  pixelData :: "u32 list"
  debugData :: "nat list"

record Workgroup =
  vectors :: "vec3u list"
  vectors_length :: nat
  local_min :: u32
  local_max :: u32

record Invocation =
  global_id :: vec2u
  workgroup_id :: vec2u
  local_id :: vec2u
  local_index :: nat

text \<open>
  An array read outside the array yields zero here (WGSL leaves the value open), and an
  array write outside the array is dropped, which is what list update does.
\<close>

definition load :: "u32 list \<Rightarrow> nat \<Rightarrow> u32" where
  "load xs i = (if i < length xs then xs ! i else 0)"

definition load_vec :: "vec3u list \<Rightarrow> nat \<Rightarrow> vec3u" where
  "load_vec xs i = (if i < length xs then xs ! i else (0, 0, 0))"

definition chunk_size :: "nat \<Rightarrow> nat \<Rightarrow> nat" where
  "chunk_size chunk_width chunk_height = chunk_width * chunk_height"

subsection \<open>The entry point \<open>main\<close>\<close>

text \<open>
  \<open>main_phase1\<close> is the body of \<open>main\<close> up to \<open>workgroupBarrier()\<close>, run by one
  invocation on the workgroup memory and the storage buffers.
\<close>

definition main_phase1 ::
  "Params \<Rightarrow> Invocation \<Rightarrow> Workgroup \<times> Storage \<Rightarrow> Workgroup \<times> Storage"
where
  "main_phase1 params iv s =
     (let wg = fst s; st = snd s;
          wg = (if local_min wg = 0 then wg\<lparr>local_min := RGBA 255 255 255 255\<rparr> else wg);
          wg = (if local_max wg = 0 then wg\<lparr>local_max := RGBA 1 0 0 0\<rparr> else wg);
          position = global_id iv;
          size_x = width params;
          size_y = height params;
          index = (snd position * size_x + fst position) mod 2 ^ 32
      in if fst position < size_x \<and> snd position < size_y then
           (let pixel = load (pixelData st) index;
                wg = (if pixel = 0 then
                        (let vector_index = vectors_length wg
                         in wg\<lparr>vectors_length := (vector_index + 1) mod 2 ^ 32,
                               vectors := (vectors wg)
                                 [vector_index := (fst position, snd position, 0)]\<rparr>)
                      else wg);
                wg = (if pixel \<noteq> 0 then
                        (let min_luminance = srgbLuminance (local_min wg);
                             max_luminance = srgbLuminance (local_max wg);
                             luminance = srgbLuminance pixel;
                             wg = (if luminance < min_luminance
                                   then wg\<lparr>local_min := pixel\<rparr> else wg);
                             wg = (if luminance > max_luminance
                                   then wg\<lparr>local_max := pixel\<rparr> else wg)
                         in wg)
                      else wg)
            in (wg, st\<lparr>resultArrayList := (resultArrayList st)[index := pixel]\<rparr>))
         else (wg, st))"

text \<open>
  The \<open>for\<close> loop after the barrier. Its counter \<open>i\<close> is a \<open>u32\<close> and
  \<open>i += chunk_size\<close> wraps, so the loop need not end for arbitrary arguments: it is a
  partial function, \<open>None\<close> standing for a loop that never exits. The second component of
  the loop state is a log of the indices at which \<open>vectors\<close> was read; the shader does
  not have it, and nothing but the log itself depends on it.
\<close>

partial_function (option) fill_loop ::
  "nat \<Rightarrow> Params \<Rightarrow> Workgroup \<Rightarrow> nat \<Rightarrow> nat \<Rightarrow> u32 list \<times> nat list
     \<Rightarrow> (u32 list \<times> nat list) option"
where
  "fill_loop cs params wg current_vector_length i s =
     (if i < current_vector_length then
        (let vector = load_vec (vectors wg) i;
             index = (fst (snd vector) * width params + fst vector) mod 2 ^ 32
         in fill_loop cs params wg current_vector_length ((i + cs) mod 2 ^ 32)
              ((fst s)[index := local_max wg], snd s @ [i]))
      else Some s)"

declare fill_loop.simps [code]

text \<open>
  \<open>main_phase2\<close> is the body of \<open>main\<close> after the barrier: the strided fill, the
  \<open>atomicAdd\<close> on \<open>belowMinMatrix.length\<close> and the debug write. It does not write
  workgroup memory.
\<close>

definition main_phase2 ::
  "nat \<Rightarrow> Params \<Rightarrow> Invocation \<Rightarrow> Workgroup \<Rightarrow> Storage \<Rightarrow> Storage option"
where
  "main_phase2 cs params iv wg st =
     (let current_vector_length = vectors_length wg
      in case fill_loop cs params wg current_vector_length (local_index iv)
                (resultArrayList st, []) of
           None \<Rightarrow> None
         | Some r \<Rightarrow>
             (let st = st\<lparr>resultArrayList := fst r\<rparr>;
                  st = st\<lparr>belowMinMatrix_length :=
                         (belowMinMatrix_length st + current_vector_length) mod 2 ^ 32\<rparr>;
                  st = (if debug params = 1
                        then st\<lparr>debugData := (debugData st)
                               [fst (workgroup_id iv) := current_vector_length]\<rparr>
                        else st)
              in Some st))"

subsection \<open>Workgroups and the dispatch\<close>

text \<open>
  The attribute \<open>@workgroup_size(chunk_height, chunk_width)\<close> gives a workgroup
  \<open>chunk_height\<close> invocations along x and \<open>chunk_width\<close> along y. The built-in values
  are those WGSL defines: \<open>local_invocation_index = local_id.x + local_id.y * chunk_height\<close>
  and \<open>global_invocation_id = workgroup_id * workgroup_size + local_invocation_id\<close>.
\<close>

definition invocation :: "nat \<Rightarrow> nat \<Rightarrow> vec2u \<Rightarrow> nat \<Rightarrow> Invocation" where
  "invocation chunk_width chunk_height wid li =
     (let lx = li mod chunk_height; ly = li div chunk_height
      in \<lparr>global_id = (fst wid * chunk_height + lx, snd wid * chunk_width + ly),
          workgroup_id = wid, local_id = (lx, ly), local_index = li\<rparr>)"

definition invocations :: "nat \<Rightarrow> nat \<Rightarrow> vec2u \<Rightarrow> Invocation list" where
  "invocations chunk_width chunk_height wid =
     map (invocation chunk_width chunk_height wid) [0..<chunk_size chunk_width chunk_height]"

text \<open>Workgroup variables are zero-initialised when a workgroup starts.\<close>

definition workgroup_init :: "nat \<Rightarrow> Workgroup" where
  "workgroup_init cs =
     \<lparr>vectors = replicate cs (0, 0, 0), vectors_length = 0, local_min = 0, local_max = 0\<rparr>"

fun run_all :: "('a \<Rightarrow> 's \<Rightarrow> 's option) \<Rightarrow> 'a list \<Rightarrow> 's \<Rightarrow> 's option" where
  "run_all f [] s = Some s"
| "run_all f (x # xs) s = (case f x s of None \<Rightarrow> None | Some s' \<Rightarrow> run_all f xs s')"

text \<open>
  The invocations of a workgroup run one after the other in the order of their
  \<open>local_invocation_index\<close>, first all of them up to the barrier and then all of them
  after it; the workgroups of a dispatch run one after the other, row by row. This is one
  of the schedules the GPU may choose (the unsynchronised updates of \<open>local_min\<close> and
  \<open>local_max\<close> make the fill colour depend on the schedule).
\<close>

definition workgroup_phase1 ::
  "nat \<Rightarrow> nat \<Rightarrow> Params \<Rightarrow> vec2u \<Rightarrow> Storage \<Rightarrow> Workgroup \<times> Storage"
where
  "workgroup_phase1 chunk_width chunk_height params wid st =
     fold (main_phase1 params) (invocations chunk_width chunk_height wid)
       (workgroup_init (chunk_size chunk_width chunk_height), st)"

definition run_workgroup ::
  "nat \<Rightarrow> nat \<Rightarrow> Params \<Rightarrow> vec2u \<Rightarrow> Storage \<Rightarrow> Storage option"
where
  "run_workgroup chunk_width chunk_height params wid st =
     (let s = workgroup_phase1 chunk_width chunk_height params wid st
      in run_all (\<lambda>iv. main_phase2 (chunk_size chunk_width chunk_height) params iv (fst s))
           (invocations chunk_width chunk_height wid) (snd s))"

definition workgroup_ids :: "nat \<Rightarrow> nat \<Rightarrow> vec2u list" where
  "workgroup_ids groups_x groups_y =
     concat (map (\<lambda>wy. map (\<lambda>wx. (wx, wy)) [0..<groups_x]) [0..<groups_y])"

definition dispatch ::
  "nat \<Rightarrow> nat \<Rightarrow> nat \<Rightarrow> nat \<Rightarrow> Params \<Rightarrow> Storage \<Rightarrow> Storage option"
where
  "dispatch chunk_width chunk_height groups_x groups_y params st =
     run_all (run_workgroup chunk_width chunk_height params)
       (workgroup_ids groups_x groups_y) st"

subsection \<open>Dispatches the properties are stated for\<close>

text \<open>
  The shader validates nothing but the position of each invocation; the caller chooses the
  tile, allocates the buffers and sizes the grid. \<open>valid_dispatch\<close> collects what the
  properties below ask of the caller: a workgroup has at least one invocation and at most
  \<open>2 ^ 31\<close> (so that \<open>i += chunk_size\<close> does not wrap before the loop exits), pixel
  indices fit in a \<open>u32\<close>, both pixel buffers have \<open>width * height\<close> entries, the
  counter holds a \<open>u32\<close>, and the grid of workgroups covers the image.
\<close>

definition valid_dispatch :: "nat \<Rightarrow> nat \<Rightarrow> nat \<Rightarrow> nat \<Rightarrow> Params \<Rightarrow> Storage \<Rightarrow> bool" where
  "valid_dispatch cw ch gx gy params st \<longleftrightarrow>
     0 < cw \<and> 0 < ch \<and> chunk_size cw ch \<le> 2 ^ 31
     \<and> width params * height params \<le> 2 ^ 32
     \<and> length (pixelData st) = width params * height params
     \<and> length (resultArrayList st) = width params * height params
     \<and> belowMinMatrix_length st < 2 ^ 32
     \<and> width params \<le> gx * ch \<and> height params \<le> gy * cw"

subsection \<open>Notions used in the proofs\<close>

text \<open>
  Names for expressions of \<open>main\<close>: the bounds test, the index of the pixel of an
  invocation, the test that the invocation appends to the missing list, the vector it
  appends and the index the fill loop computes from a vector.
\<close>

definition in_bounds :: "Params \<Rightarrow> Invocation \<Rightarrow> bool" where
  "in_bounds params iv =
     (fst (global_id iv) < width params \<and> snd (global_id iv) < height params)"

definition pixel_index :: "Params \<Rightarrow> Invocation \<Rightarrow> nat" where
  "pixel_index params iv =
     (snd (global_id iv) * width params + fst (global_id iv)) mod 2 ^ 32"

definition missing :: "Params \<Rightarrow> u32 list \<Rightarrow> Invocation \<Rightarrow> bool" where
  "missing params pd iv = (in_bounds params iv \<and> load pd (pixel_index params iv) = 0)"

definition position_vector :: "Invocation \<Rightarrow> vec3u" where
  "position_vector iv = (fst (global_id iv), snd (global_id iv), 0)"

definition vector_index :: "Params \<Rightarrow> vec3u \<Rightarrow> nat" where
  "vector_index params v = (fst (snd v) * width params + fst v) mod 2 ^ 32"

text \<open>
  Before the barrier an invocation acts on the storage buffers and on the workgroup memory
  independently: \<open>copy_pixel\<close> is its effect on the storage, \<open>track\<close> its effect on
  the workgroup memory, which depends on the storage through \<open>pixelData\<close> alone.
\<close>

definition copy_pixel :: "Params \<Rightarrow> Invocation \<Rightarrow> Storage \<Rightarrow> Storage" where
  "copy_pixel params iv st =
     (if in_bounds params iv
      then st\<lparr>resultArrayList := (resultArrayList st)
             [pixel_index params iv := load (pixelData st) (pixel_index params iv)]\<rparr>
      else st)"

definition track :: "Params \<Rightarrow> u32 list \<Rightarrow> Invocation \<Rightarrow> Workgroup \<Rightarrow> Workgroup" where
  "track params pd iv wg =
     fst (main_phase1 params iv
            (wg, \<lparr>resultArrayList = [], belowMinMatrix_length = 0, pixelData = pd,
                  debugData = []\<rparr>))"

text \<open>
  After the barrier: \<open>fill_one\<close> is the effect of the loop of the invocation with local
  index \<open>k\<close> when the loop runs at most once, and \<open>after_barrier\<close> the storage after the
  invocations with the local indices \<open>ks\<close> of one workgroup have finished.
\<close>

definition fill_one :: "Params \<Rightarrow> Workgroup \<Rightarrow> nat \<Rightarrow> u32 list \<Rightarrow> u32 list" where
  "fill_one params wg k res =
     (if k < vectors_length wg
      then res[vector_index params (load_vec (vectors wg) k) := local_max wg]
      else res)"

definition after_barrier :: "Params \<Rightarrow> Workgroup \<Rightarrow> nat \<Rightarrow> nat list \<Rightarrow> Storage \<Rightarrow> Storage" where
  "after_barrier params wg wx ks st =
     \<lparr>resultArrayList = fold (fill_one params wg) ks (resultArrayList st),
      belowMinMatrix_length =
        (belowMinMatrix_length st + length ks * vectors_length wg) mod 2 ^ 32,
      pixelData = pixelData st,
      debugData = (if debug params = 1 \<and> ks \<noteq> []
                   then (debugData st)[wx := vectors_length wg] else debugData st)\<rparr>"

text \<open>
  Per tile: the workgroup memory at the barrier, the result indices the tile owns, the
  value the tile leaves at such an index, its missing count, and the storage it leaves.
\<close>

definition tile_state :: "nat \<Rightarrow> nat \<Rightarrow> Params \<Rightarrow> u32 list \<Rightarrow> vec2u \<Rightarrow> Workgroup" where
  "tile_state cw ch params pd wid =
     fold (track params pd) (invocations cw ch wid) (workgroup_init (chunk_size cw ch))"

definition tile_indices :: "nat \<Rightarrow> nat \<Rightarrow> Params \<Rightarrow> vec2u \<Rightarrow> nat set" where
  "tile_indices cw ch params wid =
     pixel_index params ` {iv \<in> set (invocations cw ch wid). in_bounds params iv}"

definition tile_value :: "nat \<Rightarrow> nat \<Rightarrow> Params \<Rightarrow> u32 list \<Rightarrow> vec2u \<Rightarrow> nat \<Rightarrow> u32" where
  "tile_value cw ch params pd wid j =
     (if load pd j = 0 then local_max (tile_state cw ch params pd wid) else load pd j)"

definition tile_missing :: "nat \<Rightarrow> nat \<Rightarrow> Params \<Rightarrow> u32 list \<Rightarrow> vec2u \<Rightarrow> nat" where
  "tile_missing cw ch params pd wid = vectors_length (tile_state cw ch params pd wid)"

definition workgroup_result :: "nat \<Rightarrow> nat \<Rightarrow> Params \<Rightarrow> vec2u \<Rightarrow> Storage \<Rightarrow> Storage" where
  "workgroup_result cw ch params wid st =
     after_barrier params (tile_state cw ch params (pixelData st) wid) (fst wid)
       [0..<chunk_size cw ch] (fold (copy_pixel params) (invocations cw ch wid) st)"

definition sentinel_indices :: "u32 list \<Rightarrow> nat set" where
  "sentinel_indices pd = {j. j < length pd \<and> pd ! j = 0}"

section \<open>Colour packing against unpacking\<close>

lemma byte_take_bit:
  assumes "x \<le> 255"
  shows "take_bit 8 x = (x :: u32)"
proof -
  have "(255 :: u32) < 2 ^ 8" by simp
  with assms have "x < 2 ^ 8" by (rule le_less_trans)
  then have "x AND mask 8 = x" by (rule less_mask_eq)
  then show ?thesis by (simp add: take_bit_eq_mask)
qed

lemma byte_bit:
  assumes "(x :: u32) \<le> 255" and "bit x n"
  shows "n < 8"
proof -
  have "bit (take_bit 8 x) n" using assms byte_take_bit by simp
  then show ?thesis by (simp add: bit_take_bit_iff)
qed

lemma ff_mask: "(0xff :: u32) = mask 8"
  by (simp add: mask_eq_exp_minus_1)

lemma byte_at_24:
  assumes "r \<le> 255" "g \<le> 255" "b \<le> 255" "a \<le> 255"
  shows "drop_bit 24 (RGBA r g b a) AND 0xff = r"
  unfolding RGBA_def ff_mask
  by (rule bit_word_eqI) (use assms in \<open>auto simp add: bit_simps dest: byte_bit\<close>)

lemma byte_at_16:
  assumes "r \<le> 255" "g \<le> 255" "b \<le> 255" "a \<le> 255"
  shows "drop_bit 16 (RGBA r g b a) AND 0xff = g"
  unfolding RGBA_def ff_mask
  by (rule bit_word_eqI) (use assms in \<open>auto simp add: bit_simps dest: byte_bit\<close>)

lemma byte_at_8:
  assumes "r \<le> 255" "g \<le> 255" "b \<le> 255" "a \<le> 255"
  shows "drop_bit 8 (RGBA r g b a) AND 0xff = b"
  unfolding RGBA_def ff_mask
  by (rule bit_word_eqI) (use assms in \<open>auto simp add: bit_simps dest: byte_bit\<close>)

text \<open>
  C5. \<open>RGBA\<close> puts r, g, b, a at the shifts 24, 16, 8, 0; \<open>colorVector\<close> reads the
  shifts 24, 16, 8 into variables named r, b, g and returns them in the order r, g, b. So
  for channel bytes the round trip \<open>colorVector (RGBA r g b a)\<close> is
  \<open>(r/255, b/255, g/255)\<close>: green and blue come back swapped, and the result does not
  depend on a.
\<close>

theorem colorVector_RGBA_swaps_green_blue:
  assumes "r \<le> 255" "g \<le> 255" "b \<le> 255" "a \<le> 255"
  shows "colorVector (RGBA r g b a) =
           (of_nat (unat r) / 255, of_nat (unat b) / 255, of_nat (unat g) / 255)"
  by (simp only: colorVector_def Let_def
        byte_at_24 [OF assms] byte_at_16 [OF assms] byte_at_8 [OF assms])

theorem colorVector_RGBA_swaps_green_blue_witness:
  "(10 :: u32) \<le> 255 \<and> (20 :: u32) \<le> 255 \<and> (30 :: u32) \<le> 255 \<and> (40 :: u32) \<le> 255
   \<and> colorVector (RGBA 10 20 30 40) = (10 / 255, 30 / 255, 20 / 255)"
  using colorVector_RGBA_swaps_green_blue [of 10 20 30 40] by simp

section \<open>One workgroup\<close>

lemma main_phase1_split:
  "main_phase1 params iv (wg, st) = (track params (pixelData st) iv wg, copy_pixel params iv st)"
  by (simp add: main_phase1_def track_def copy_pixel_def in_bounds_def pixel_index_def Let_def)

lemma pixelData_copy_pixel [simp]: "pixelData (copy_pixel params iv st) = pixelData st"
  by (simp add: copy_pixel_def)

lemma debugData_copy_pixel [simp]: "debugData (copy_pixel params iv st) = debugData st"
  by (simp add: copy_pixel_def)

lemma counter_copy_pixel [simp]:
  "belowMinMatrix_length (copy_pixel params iv st) = belowMinMatrix_length st"
  by (simp add: copy_pixel_def)

lemma length_result_copy_pixel [simp]:
  "length (resultArrayList (copy_pixel params iv st)) = length (resultArrayList st)"
  by (simp add: copy_pixel_def)

lemma pixelData_fold_copy [simp]: "pixelData (fold (copy_pixel params) ivs st) = pixelData st"
  by (induction ivs arbitrary: st) simp_all

lemma debugData_fold_copy [simp]: "debugData (fold (copy_pixel params) ivs st) = debugData st"
  by (induction ivs arbitrary: st) simp_all

lemma counter_fold_copy [simp]:
  "belowMinMatrix_length (fold (copy_pixel params) ivs st) = belowMinMatrix_length st"
  by (induction ivs arbitrary: st) simp_all

lemma length_result_fold_copy [simp]:
  "length (resultArrayList (fold (copy_pixel params) ivs st)) = length (resultArrayList st)"
  by (induction ivs arbitrary: st) simp_all

lemma fold_main_phase1:
  "fold (main_phase1 params) ivs (wg, st) =
     (fold (track params (pixelData st)) ivs wg, fold (copy_pixel params) ivs st)"
  by (induction ivs arbitrary: wg st) (simp_all add: main_phase1_split)

lemma result_copy_pixel:
  assumes "j < length (resultArrayList st)"
  shows "resultArrayList (copy_pixel params iv st) ! j =
           (if in_bounds params iv \<and> pixel_index params iv = j
            then load (pixelData st) j else resultArrayList st ! j)"
  using assms by (simp add: copy_pixel_def nth_list_update)

lemma result_fold_copy:
  assumes "j < length (resultArrayList st)"
  shows "resultArrayList (fold (copy_pixel params) ivs st) ! j =
           (if \<exists>iv \<in> set ivs. in_bounds params iv \<and> pixel_index params iv = j
            then load (pixelData st) j else resultArrayList st ! j)"
  using assms
proof (induction ivs arbitrary: st rule: rev_induct)
  case Nil
  then show ?case by simp
next
  case (snoc iv ivs)
  then show ?case
    by (auto simp add: result_copy_pixel)
qed

lemma track_length_vectors [simp]:
  "length (vectors (track params pd iv wg)) = length (vectors wg)"
  by (simp add: track_def main_phase1_def Let_def)

lemma track_vectors_length:
  "vectors_length (track params pd iv wg) =
     (if missing params pd iv then (vectors_length wg + 1) mod 2 ^ 32 else vectors_length wg)"
  by (simp add: track_def main_phase1_def Let_def missing_def in_bounds_def pixel_index_def)

lemma track_vectors:
  "vectors (track params pd iv wg) =
     (if missing params pd iv
      then (vectors wg)[vectors_length wg := (fst (global_id iv), snd (global_id iv), 0)]
      else vectors wg)"
  by (simp add: track_def main_phase1_def Let_def missing_def in_bounds_def pixel_index_def)

lemma RGBA_seed: "RGBA 1 0 0 0 = 16777216"
  by (simp add: RGBA_def)

lemma track_local_max_nonzero: "local_max (track params pd iv wg) \<noteq> 0"
  by (simp add: track_def main_phase1_def Let_def RGBA_seed)

lemma track_cong:
  assumes "in_bounds params iv \<Longrightarrow> load pd (pixel_index params iv) = load pd' (pixel_index params iv)"
  shows "track params pd iv wg = track params pd' iv wg"
  using assms
  by (simp add: track_def main_phase1_def Let_def in_bounds_def pixel_index_def)

lemma fold_track_length_vectors [simp]:
  "length (vectors (fold (track params pd) ivs wg)) = length (vectors wg)"
  by (induction ivs arbitrary: wg) simp_all

lemma fold_track_vectors_length:
  assumes "vectors_length wg + length ivs < 2 ^ 32"
  shows "vectors_length (fold (track params pd) ivs wg) =
           vectors_length wg + length (filter (missing params pd) ivs)"
  using assms
proof (induction ivs arbitrary: wg rule: rev_induct)
  case Nil
  then show ?case by simp
next
  case (snoc iv ivs)
  then have "vectors_length (fold (track params pd) ivs wg) =
               vectors_length wg + length (filter (missing params pd) ivs)"
    by simp
  moreover have "length (filter (missing params pd) ivs) \<le> length ivs"
    by simp
  ultimately have "vectors_length (fold (track params pd) ivs wg) + 1 < 2 ^ 32"
    using snoc.prems by (simp del: length_filter_le)
  then have "(vectors_length (fold (track params pd) ivs wg) + 1) mod 2 ^ 32 =
               vectors_length (fold (track params pd) ivs wg) + 1"
    by (rule mod_less)
  then show ?case
    using snoc.prems by (simp add: track_vectors_length snoc.IH)
qed

lemma fold_track_vectors:
  assumes "vectors_length wg + length ivs \<le> length (vectors wg)"
    and "length (vectors wg) < 2 ^ 32"
  shows "take (vectors_length wg + length (filter (missing params pd) ivs))
              (vectors (fold (track params pd) ivs wg)) =
           take (vectors_length wg) (vectors wg)
             @ map position_vector (filter (missing params pd) ivs)"
  using assms
proof (induction ivs arbitrary: wg rule: rev_induct)
  case Nil
  then show ?case by simp
next
  case (snoc iv ivs)
  let ?wg = "fold (track params pd) ivs wg"
  let ?n = "vectors_length wg + length (filter (missing params pd) ivs)"
  have le: "length (filter (missing params pd) ivs) \<le> length ivs"
    by simp
  have vl: "vectors_length ?wg = ?n"
    using snoc.prems by (intro fold_track_vectors_length) simp
  have ih: "take ?n (vectors ?wg) =
              take (vectors_length wg) (vectors wg)
                @ map position_vector (filter (missing params pd) ivs)"
    using snoc.prems by (intro snoc.IH) simp_all
  show ?case
  proof (cases "missing params pd iv")
    case True
    have lt: "?n < length (vectors ?wg)"
      using snoc.prems(1) le by (simp del: length_filter_le)
    have "take (Suc ?n) ((vectors ?wg)[?n := position_vector iv]) =
            take ?n (vectors ?wg) @ [position_vector iv]"
      using lt by (simp add: take_Suc_conv_app_nth)
    then show ?thesis
      using True ih vl by (simp add: track_vectors position_vector_def)
  next
    case False
    then show ?thesis
      using ih by (simp add: track_vectors)
  qed
qed

lemma fold_track_local_max_nonzero:
  assumes "ivs \<noteq> []"
  shows "local_max (fold (track params pd) ivs wg) \<noteq> 0"
proof -
  obtain ivs' iv where "ivs = ivs' @ [iv]"
    using assms by (cases ivs rule: rev_cases) auto
  then show ?thesis
    by (simp add: track_local_max_nonzero)
qed

lemma fold_track_cong:
  assumes "\<And>iv. iv \<in> set ivs \<Longrightarrow> in_bounds params iv \<Longrightarrow>
             load pd (pixel_index params iv) = load pd' (pixel_index params iv)"
  shows "fold (track params pd) ivs wg = fold (track params pd') ivs wg"
  using assms
proof (induction ivs arbitrary: wg)
  case Nil
  then show ?case by simp
next
  case (Cons iv ivs)
  have "track params pd iv wg = track params pd' iv wg"
    by (rule track_cong) (simp add: Cons.prems)
  then show ?case
    using Cons by simp
qed

lemma vector_index_position [simp]:
  "vector_index params (position_vector iv) = pixel_index params iv"
  by (simp add: vector_index_def position_vector_def pixel_index_def)

lemma fill_loop_exit:
  assumes "\<not> i < n"
  shows "fill_loop cs params wg n i s = Some s"
  using assms by (subst fill_loop.simps) simp

lemma fill_loop_once:
  assumes "n \<le> cs" and "cs \<le> 2 ^ 31" and "li < cs"
  shows "fill_loop cs params wg n li s =
           Some (if li < n
                 then ((fst s)[vector_index params (load_vec (vectors wg) li) := local_max wg],
                       snd s @ [li])
                 else s)"
proof (cases "li < n")
  case False
  then show ?thesis by (simp add: fill_loop_exit)
next
  case True
  have "li + cs < 2 ^ 32"
    using assms by simp
  then have next_i: "(li + cs) mod 2 ^ 32 = li + cs"
    by simp
  have "\<not> li + cs < n"
    using assms by simp
  then have "fill_loop cs params wg n ((li + cs) mod 2 ^ 32)
               ((fst s)[vector_index params (load_vec (vectors wg) li) := local_max wg],
                snd s @ [li]) =
             Some ((fst s)[vector_index params (load_vec (vectors wg) li) := local_max wg],
                   snd s @ [li])"
    unfolding next_i by (rule fill_loop_exit)
  moreover have "fill_loop cs params wg n li s =
      fill_loop cs params wg n ((li + cs) mod 2 ^ 32)
        ((fst s)[vector_index params (load_vec (vectors wg) li) := local_max wg],
         snd s @ [li])"
    using True by (subst fill_loop.simps) (simp add: vector_index_def Let_def)
  ultimately show ?thesis
    using True by simp
qed

lemma local_index_invocation [simp]: "local_index (invocation cw ch wid k) = k"
  by (simp add: invocation_def Let_def)

lemma workgroup_id_invocation [simp]: "workgroup_id (invocation cw ch wid k) = wid"
  by (simp add: invocation_def Let_def)

lemma global_id_invocation [simp]:
  "global_id (invocation cw ch wid k) = (fst wid * ch + k mod ch, snd wid * cw + k div ch)"
  by (simp add: invocation_def Let_def)

lemma main_phase2_eq:
  assumes "vectors_length wg \<le> cs" and "cs \<le> 2 ^ 31" and "local_index iv < cs"
  shows "main_phase2 cs params iv wg st =
           Some (after_barrier params wg (fst (workgroup_id iv)) [local_index iv] st)"
  by (simp add: main_phase2_def Let_def fill_loop_once [OF assms] after_barrier_def fill_one_def)

lemma after_barrier_Cons:
  "after_barrier params wg wx ks (after_barrier params wg wx [k] st) =
     after_barrier params wg wx (k # ks) st"
  by (simp add: after_barrier_def mod_add_left_eq add.assoc)

lemma run_all_main_phase2:
  assumes "vectors_length wg \<le> cs" and "cs \<le> 2 ^ 31" and "\<forall>k \<in> set ks. k < cs"
  shows "run_all (\<lambda>iv. main_phase2 cs params iv wg) (map (invocation cw ch wid) ks) st =
           Some (if ks = [] then st else after_barrier params wg (fst wid) ks st)"
  using assms(3)
proof (induction ks arbitrary: st)
  case Nil
  then show ?case by simp
next
  case (Cons k ks)
  have "k < cs"
    using Cons.prems by simp
  then have step: "main_phase2 cs params (invocation cw ch wid k) wg st =
                     Some (after_barrier params wg (fst wid) [k] st)"
    using main_phase2_eq [OF assms(1,2), of "invocation cw ch wid k"] by simp
  show ?case
  proof (cases "ks = []")
    case True
    then show ?thesis by (simp add: step)
  next
    case False
    then show ?thesis
      using Cons by (simp add: step after_barrier_Cons)
  qed
qed

lemma fill_one_length [simp]: "length (fill_one params wg k res) = length res"
  by (simp add: fill_one_def)

lemma fold_fill_one_length [simp]: "length (fold (fill_one params wg) ks res) = length res"
  by (induction ks arbitrary: res) simp_all

lemma fill_one_nth:
  assumes "j < length res"
  shows "fill_one params wg k res ! j =
           (if k < vectors_length wg \<and> vector_index params (load_vec (vectors wg) k) = j
            then local_max wg else res ! j)"
  using assms by (simp add: fill_one_def nth_list_update)

lemma fold_fill_one_nth:
  assumes "j < length res"
  shows "fold (fill_one params wg) ks res ! j =
           (if \<exists>k \<in> set ks. k < vectors_length wg
                 \<and> vector_index params (load_vec (vectors wg) k) = j
            then local_max wg else res ! j)"
  using assms
proof (induction ks arbitrary: res rule: rev_induct)
  case Nil
  then show ?case by simp
next
  case (snoc k ks)
  then show ?case
    by (auto simp add: fill_one_nth)
qed

lemma workgroup_phase1_eq:
  "workgroup_phase1 cw ch params wid st =
     (tile_state cw ch params (pixelData st) wid,
      fold (copy_pixel params) (invocations cw ch wid) st)"
  by (simp add: workgroup_phase1_def tile_state_def fold_main_phase1)

lemma length_invocations [simp]: "length (invocations cw ch wid) = chunk_size cw ch"
  by (simp add: invocations_def)

lemma tile_state_length_vectors [simp]:
  "length (vectors (tile_state cw ch params pd wid)) = chunk_size cw ch"
  by (simp add: tile_state_def workgroup_init_def)

lemma tile_state_vectors_length:
  assumes "chunk_size cw ch \<le> 2 ^ 31"
  shows "vectors_length (tile_state cw ch params pd wid) =
           length (filter (missing params pd) (invocations cw ch wid))"
proof -
  have "vectors_length (workgroup_init (chunk_size cw ch)) + length (invocations cw ch wid)
          < 2 ^ 32"
    using assms by (simp add: workgroup_init_def)
  then show ?thesis
    unfolding tile_state_def
    by (subst fold_track_vectors_length) (simp_all add: workgroup_init_def)
qed

lemma tile_state_vectors_length_le:
  assumes "chunk_size cw ch \<le> 2 ^ 31"
  shows "vectors_length (tile_state cw ch params pd wid) \<le> chunk_size cw ch"
proof -
  have "length (filter (missing params pd) (invocations cw ch wid))
          \<le> length (invocations cw ch wid)"
    by (rule length_filter_le)
  then show ?thesis
    by (simp add: tile_state_vectors_length [OF assms])
qed

lemma tile_state_vectors:
  assumes "chunk_size cw ch \<le> 2 ^ 31"
  shows "take (vectors_length (tile_state cw ch params pd wid))
              (vectors (tile_state cw ch params pd wid)) =
           map position_vector (filter (missing params pd) (invocations cw ch wid))"
proof -
  let ?wg = "workgroup_init (chunk_size cw ch)"
  have a: "vectors_length ?wg + length (invocations cw ch wid) \<le> length (vectors ?wg)"
    by (simp add: workgroup_init_def)
  have b: "length (vectors ?wg) < 2 ^ 32"
    using assms by (simp add: workgroup_init_def)
  have "take (vectors_length ?wg
               + length (filter (missing params pd) (invocations cw ch wid)))
             (vectors (fold (track params pd) (invocations cw ch wid) ?wg)) =
          take (vectors_length ?wg) (vectors ?wg)
            @ map position_vector (filter (missing params pd) (invocations cw ch wid))"
    using a b by (rule fold_track_vectors)
  then show ?thesis
    by (simp add: tile_state_vectors_length [OF assms])
       (simp add: tile_state_def workgroup_init_def)
qed

lemma tile_state_local_max_nonzero:
  assumes "0 < chunk_size cw ch"
  shows "local_max (tile_state cw ch params pd wid) \<noteq> 0"
proof -
  have "invocations cw ch wid \<noteq> []"
    using assms by (simp add: invocations_def)
  then show ?thesis
    unfolding tile_state_def by (rule fold_track_local_max_nonzero)
qed

lemma recorded_vector_indices:
  assumes "chunk_size cw ch \<le> 2 ^ 31"
  shows "(\<exists>k. k < vectors_length (tile_state cw ch params pd wid)
            \<and> vector_index params (load_vec (vectors (tile_state cw ch params pd wid)) k) = j)
         \<longleftrightarrow> (\<exists>iv \<in> set (invocations cw ch wid).
                missing params pd iv \<and> pixel_index params iv = j)"
proof -
  let ?ts = "tile_state cw ch params pd wid"
  let ?n = "vectors_length ?ts"
  let ?ms = "filter (missing params pd) (invocations cw ch wid)"
  have n: "?n = length ?ms"
    by (rule tile_state_vectors_length [OF assms])
  have le: "?n \<le> length (vectors ?ts)"
    using tile_state_vectors_length_le [OF assms] by simp
  have nth: "load_vec (vectors ?ts) k = position_vector (?ms ! k)" if "k < ?n" for k
  proof -
    have "load_vec (vectors ?ts) k = vectors ?ts ! k"
      using that le by (simp add: load_vec_def)
    also have "\<dots> = take ?n (vectors ?ts) ! k"
      using that by simp
    also have "\<dots> = map position_vector ?ms ! k"
      by (simp only: tile_state_vectors [OF assms])
    also have "\<dots> = position_vector (?ms ! k)"
      using that n by simp
    finally show ?thesis .
  qed
  show ?thesis
  proof
    assume "\<exists>k. k < ?n \<and> vector_index params (load_vec (vectors ?ts) k) = j"
    then obtain k where k: "k < ?n" "vector_index params (load_vec (vectors ?ts) k) = j"
      by blast
    have "?ms ! k \<in> set ?ms"
      using k(1) n by (intro nth_mem) simp
    then have "?ms ! k \<in> set (invocations cw ch wid) \<and> missing params pd (?ms ! k)"
      by (simp only: set_filter mem_Collect_eq)
    moreover have "pixel_index params (?ms ! k) = j"
      using k by (simp add: nth)
    ultimately show "\<exists>iv \<in> set (invocations cw ch wid).
                       missing params pd iv \<and> pixel_index params iv = j"
      by auto
  next
    assume "\<exists>iv \<in> set (invocations cw ch wid).
              missing params pd iv \<and> pixel_index params iv = j"
    then obtain iv where "iv \<in> set ?ms" "pixel_index params iv = j"
      by auto
    then obtain k where "k < length ?ms" "?ms ! k = iv"
      unfolding in_set_conv_nth [of iv ?ms] by blast
    then show "\<exists>k. k < ?n \<and> vector_index params (load_vec (vectors ?ts) k) = j"
      using \<open>pixel_index params iv = j\<close> n by (auto simp add: nth)
  qed
qed

lemma run_workgroup_eq:
  assumes "0 < chunk_size cw ch" and "chunk_size cw ch \<le> 2 ^ 31"
  shows "run_workgroup cw ch params wid st =
           Some (after_barrier params (tile_state cw ch params (pixelData st) wid) (fst wid)
                   [0..<chunk_size cw ch]
                   (fold (copy_pixel params) (invocations cw ch wid) st))"
proof -
  let ?ts = "tile_state cw ch params (pixelData st) wid"
  let ?cs = "chunk_size cw ch"
  have "run_all (\<lambda>iv. main_phase2 ?cs params iv ?ts) (map (invocation cw ch wid) [0..<?cs])
          (fold (copy_pixel params) (invocations cw ch wid) st) =
        Some (if [0..<?cs] = [] then fold (copy_pixel params) (invocations cw ch wid) st
              else after_barrier params ?ts (fst wid) [0..<?cs]
                     (fold (copy_pixel params) (invocations cw ch wid) st))"
    by (rule run_all_main_phase2 [OF tile_state_vectors_length_le [OF assms(2)] assms(2)]) simp
  moreover have "[0..<?cs] \<noteq> []"
    using assms(1) by simp
  ultimately show ?thesis
    by (simp add: run_workgroup_def workgroup_phase1_eq Let_def invocations_def [symmetric])
qed

lemma run_workgroup_pixelData:
  assumes "0 < chunk_size cw ch" and "chunk_size cw ch \<le> 2 ^ 31"
    and "run_workgroup cw ch params wid st = Some st'"
  shows "pixelData st' = pixelData st"
  using assms(3) unfolding run_workgroup_eq [OF assms(1,2)]
  by (auto simp add: after_barrier_def)

lemma run_workgroup_length_result:
  assumes "0 < chunk_size cw ch" and "chunk_size cw ch \<le> 2 ^ 31"
    and "run_workgroup cw ch params wid st = Some st'"
  shows "length (resultArrayList st') = length (resultArrayList st)"
  using assms(3) unfolding run_workgroup_eq [OF assms(1,2)]
  by (auto simp add: after_barrier_def)

lemma run_workgroup_counter:
  assumes "0 < chunk_size cw ch" and "chunk_size cw ch \<le> 2 ^ 31"
    and "run_workgroup cw ch params wid st = Some st'"
  shows "belowMinMatrix_length st' =
           (belowMinMatrix_length st
              + chunk_size cw ch * tile_missing cw ch params (pixelData st) wid) mod 2 ^ 32"
  using assms(3) unfolding run_workgroup_eq [OF assms(1,2)]
  by (auto simp add: after_barrier_def tile_missing_def)


lemma run_workgroup_result:
  assumes "0 < chunk_size cw ch" and "chunk_size cw ch \<le> 2 ^ 31"
    and "run_workgroup cw ch params wid st = Some st'"
    and "j < length (resultArrayList st)"
  shows "resultArrayList st' ! j =
           (if j \<in> tile_indices cw ch params wid
            then tile_value cw ch params (pixelData st) wid j
            else resultArrayList st ! j)"
proof -
  let ?pd = "pixelData st"
  let ?ts = "tile_state cw ch params ?pd wid"
  let ?st1 = "fold (copy_pixel params) (invocations cw ch wid) st"
  have st': "st' = after_barrier params ?ts (fst wid) [0..<chunk_size cw ch] ?st1"
    using assms(3) unfolding run_workgroup_eq [OF assms(1,2)] by simp
  have j1: "j < length (resultArrayList ?st1)"
    using assms(4) by simp
  have filled: "(\<exists>k \<in> set [0..<chunk_size cw ch]. k < vectors_length ?ts
                  \<and> vector_index params (load_vec (vectors ?ts) k) = j)
               \<longleftrightarrow> (\<exists>iv \<in> set (invocations cw ch wid).
                      missing params ?pd iv \<and> pixel_index params iv = j)"
    using recorded_vector_indices [OF assms(2), of params ?pd wid j]
      tile_state_vectors_length_le [OF assms(2), of params ?pd wid]
    by auto
  have copied: "resultArrayList ?st1 ! j =
                  (if j \<in> tile_indices cw ch params wid then load ?pd j
                   else resultArrayList st ! j)"
    using result_fold_copy [OF assms(4), of params "invocations cw ch wid"]
    by (auto simp add: tile_indices_def)
  have "resultArrayList st' ! j =
          (if \<exists>iv \<in> set (invocations cw ch wid).
                missing params ?pd iv \<and> pixel_index params iv = j
           then local_max ?ts else resultArrayList ?st1 ! j)"
    unfolding st' using fold_fill_one_nth [OF j1, of params ?ts "[0..<chunk_size cw ch]"]
    by (simp only: after_barrier_def Storage.simps filled)
  also have "\<dots> = (if j \<in> tile_indices cw ch params wid
                     then tile_value cw ch params ?pd wid j
                     else resultArrayList st ! j)"
    unfolding copied
    by (auto simp add: tile_indices_def tile_value_def missing_def)
  finally show ?thesis .
qed

section \<open>The whole dispatch\<close>

lemma run_all_total:
  assumes "\<And>x s. f x s = Some (g x s)"
  shows "run_all f xs s = Some (fold g xs s)"
  by (induction xs arbitrary: s) (simp_all add: assms)

lemma run_workgroup_Some:
  assumes "0 < chunk_size cw ch" and "chunk_size cw ch \<le> 2 ^ 31"
  shows "run_workgroup cw ch params wid st = Some (workgroup_result cw ch params wid st)"
  unfolding workgroup_result_def by (rule run_workgroup_eq [OF assms])

lemma dispatch_eq:
  assumes "0 < chunk_size cw ch" and "chunk_size cw ch \<le> 2 ^ 31"
  shows "dispatch cw ch gx gy params st =
           Some (fold (workgroup_result cw ch params) (workgroup_ids gx gy) st)"
  unfolding dispatch_def by (rule run_all_total) (rule run_workgroup_Some [OF assms])

lemma fold_workgroup_pixelData:
  assumes "0 < chunk_size cw ch" and "chunk_size cw ch \<le> 2 ^ 31"
  shows "pixelData (fold (workgroup_result cw ch params) wids st) = pixelData st"
proof (induction wids rule: rev_induct)
  case Nil
  then show ?case by simp
next
  case (snoc wid wids)
  then show ?case
    using run_workgroup_pixelData [OF assms run_workgroup_Some [OF assms]] by simp
qed

lemma fold_workgroup_length_result:
  assumes "0 < chunk_size cw ch" and "chunk_size cw ch \<le> 2 ^ 31"
  shows "length (resultArrayList (fold (workgroup_result cw ch params) wids st)) =
           length (resultArrayList st)"
proof (induction wids rule: rev_induct)
  case Nil
  then show ?case by simp
next
  case (snoc wid wids)
  then show ?case
    using run_workgroup_length_result [OF assms run_workgroup_Some [OF assms]] by simp
qed

lemma fold_workgroup_counter:
  assumes "0 < chunk_size cw ch" and "chunk_size cw ch \<le> 2 ^ 31"
    and "belowMinMatrix_length st < 2 ^ 32"
  shows "belowMinMatrix_length (fold (workgroup_result cw ch params) wids st) =
           (belowMinMatrix_length st
              + chunk_size cw ch
                * sum_list (map (tile_missing cw ch params (pixelData st)) wids)) mod 2 ^ 32"
proof (induction wids rule: rev_induct)
  case Nil
  then show ?case using assms(3) by simp
next
  case (snoc wid wids)
  let ?st = "fold (workgroup_result cw ch params) wids st"
  have "belowMinMatrix_length (workgroup_result cw ch params wid ?st) =
          (belowMinMatrix_length ?st
             + chunk_size cw ch * tile_missing cw ch params (pixelData ?st) wid) mod 2 ^ 32"
    by (rule run_workgroup_counter [OF assms(1,2) run_workgroup_Some [OF assms(1,2)]])
  then show ?case
    by (simp add: snoc.IH fold_workgroup_pixelData [OF assms(1,2)] mod_add_left_eq
          add.assoc distrib_left)
qed


lemma fold_workgroup_result_outside:
  assumes "0 < chunk_size cw ch" and "chunk_size cw ch \<le> 2 ^ 31"
    and "j < length (resultArrayList st)"
    and "\<forall>wid \<in> set wids. j \<notin> tile_indices cw ch params wid"
  shows "resultArrayList (fold (workgroup_result cw ch params) wids st) ! j =
           resultArrayList st ! j"
  using assms(4)
proof (induction wids rule: rev_induct)
  case Nil
  then show ?case by simp
next
  case (snoc wid wids)
  let ?st = "fold (workgroup_result cw ch params) wids st"
  have j: "j < length (resultArrayList ?st)"
    using assms(3) by (simp add: fold_workgroup_length_result [OF assms(1,2)])
  show ?case
    using run_workgroup_result [OF assms(1,2) run_workgroup_Some [OF assms(1,2)] j] snoc
    by simp
qed

lemma fold_workgroup_result_inside:
  assumes "0 < chunk_size cw ch" and "chunk_size cw ch \<le> 2 ^ 31"
    and "j < length (resultArrayList st)"
    and "wid \<in> set wids" and "j \<in> tile_indices cw ch params wid"
    and "\<forall>wid' \<in> set wids. wid' \<noteq> wid \<longrightarrow> j \<notin> tile_indices cw ch params wid'"
  shows "resultArrayList (fold (workgroup_result cw ch params) wids st) ! j =
           tile_value cw ch params (pixelData st) wid j"
  using assms(4,6)
proof (induction wids rule: rev_induct)
  case Nil
  then show ?case by simp
next
  case (snoc w wids)
  let ?st = "fold (workgroup_result cw ch params) wids st"
  have j: "j < length (resultArrayList ?st)"
    using assms(3) by (simp add: fold_workgroup_length_result [OF assms(1,2)])
  have step: "resultArrayList (workgroup_result cw ch params w ?st) ! j =
                (if j \<in> tile_indices cw ch params w
                 then tile_value cw ch params (pixelData st) w j
                 else resultArrayList ?st ! j)"
    using run_workgroup_result [OF assms(1,2) run_workgroup_Some [OF assms(1,2)] j]
    by (simp add: fold_workgroup_pixelData [OF assms(1,2)])
  show ?case
  proof (cases "w = wid")
    case True
    then show ?thesis using step assms(5) by simp
  next
    case False
    then have "j \<notin> tile_indices cw ch params w" and "wid \<in> set wids"
      using snoc.prems by auto
    then show ?thesis
      using step snoc by simp
  qed
qed

lemma index_bound:
  assumes "x < w" and "y < (h :: nat)"
  shows "y * w + x < w * h"
proof -
  have "Suc y \<le> h" using assms(2) by simp
  then have "Suc y * w \<le> h * w" by (rule mult_le_mono1)
  then show ?thesis using assms(1) by (simp add: mult.commute)
qed

lemma tile_indices_iff:
  "j \<in> tile_indices cw ch params wid \<longleftrightarrow>
     (\<exists>k < chunk_size cw ch. in_bounds params (invocation cw ch wid k)
        \<and> pixel_index params (invocation cw ch wid k) = j)"
  by (auto simp add: tile_indices_def invocations_def)

lemma pixel_in_tile:
  assumes "0 < cw" and "0 < ch" and "width params * height params \<le> 2 ^ 32"
    and "x < width params" and "y < height params"
  shows "y * width params + x \<in> tile_indices cw ch params (x div ch, y div cw)"
proof -
  let ?k = "(y mod cw) * ch + x mod ch"
  have "Suc (y mod cw) \<le> cw" using assms(1) by (simp add: Suc_le_eq)
  then have "Suc (y mod cw) * ch \<le> cw * ch" by (rule mult_le_mono1)
  moreover have "x mod ch < ch" using assms(2) by simp
  ultimately have k: "?k < chunk_size cw ch"
    by (simp add: chunk_size_def)
  have kmod: "?k mod ch = x mod ch" by simp
  have kdiv: "?k div ch = y mod cw" using assms(2) by simp
  have g: "global_id (invocation cw ch (x div ch, y div cw) ?k) = (x, y)"
    by (simp only: global_id_invocation kmod kdiv fst_conv snd_conv) simp
  have "y * width params + x < 2 ^ 32"
    using index_bound [OF assms(4,5)] assms(3) by simp
  then have "pixel_index params (invocation cw ch (x div ch, y div cw) ?k) =
               y * width params + x"
    by (simp only: pixel_index_def g fst_conv snd_conv mod_less)
  moreover have "in_bounds params (invocation cw ch (x div ch, y div cw) ?k)"
    using assms(4,5) by (simp only: in_bounds_def g fst_conv snd_conv)
  ultimately show ?thesis
    unfolding tile_indices_iff using k by blast
qed

lemma tile_indices_unique:
  assumes "0 < cw" and "0 < ch" and "width params * height params \<le> 2 ^ 32"
    and "j \<in> tile_indices cw ch params wid"
  shows "j < width params * height params"
    and "wid = ((j mod width params) div ch, (j div width params) div cw)"
proof -
  obtain k where k: "k < chunk_size cw ch" "in_bounds params (invocation cw ch wid k)"
    "pixel_index params (invocation cw ch wid k) = j"
    using assms(4) unfolding tile_indices_iff by blast
  let ?gx = "fst wid * ch + k mod ch"
  let ?gy = "snd wid * cw + k div ch"
  have gx: "?gx < width params" and gy: "?gy < height params"
    using k(2) by (simp_all add: in_bounds_def)
  have lt: "?gy * width params + ?gx < width params * height params"
    by (rule index_bound [OF gx gy])
  then have "(?gy * width params + ?gx) mod 2 ^ 32 = ?gy * width params + ?gx"
    using assms(3) by simp
  then have j: "j = ?gy * width params + ?gx"
    using k(3) by (simp only: pixel_index_def global_id_invocation fst_conv snd_conv)
  show "j < width params * height params"
    using lt j by simp
  have jm: "j mod width params = ?gx"
    using gx unfolding j by simp
  have jd: "j div width params = ?gy"
    using gx unfolding j by simp
  have "k div ch < cw"
    using k(1) assms(2) by (simp add: chunk_size_def less_mult_imp_div_less)
  then have "?gy div cw = snd wid"
    using assms(1) by simp
  moreover have "?gx div ch = fst wid"
    using assms(2) by simp
  ultimately show "wid = ((j mod width params) div ch, (j div width params) div cw)"
    unfolding jm jd by (simp add: prod_eq_iff)
qed

lemma workgroup_ids_iff:
  "wid \<in> set (workgroup_ids gx gy) \<longleftrightarrow> fst wid < gx \<and> snd wid < gy"
  by (cases wid) (auto simp add: workgroup_ids_def image_iff)

lemma valid_chunk_size:
  assumes "valid_dispatch cw ch gx gy params st"
  shows "0 < chunk_size cw ch" and "chunk_size cw ch \<le> 2 ^ 31"
  using assms by (simp_all add: valid_dispatch_def chunk_size_def)


lemma dispatch_pixel:
  assumes "valid_dispatch cw ch gx gy params st"
    and "x < width params" and "y < height params"
  shows "resultArrayList (fold (workgroup_result cw ch params) (workgroup_ids gx gy) st)
           ! (y * width params + x) =
         tile_value cw ch params (pixelData st) (x div ch, y div cw) (y * width params + x)"
proof -
  let ?j = "y * width params + x"
  let ?wid = "(x div ch, y div cw)"
  have cw: "0 < cw" and ch: "0 < ch" and wh: "width params * height params \<le> 2 ^ 32"
    using assms(1) by (simp_all add: valid_dispatch_def)
  have j: "?j < length (resultArrayList st)"
    using assms(1) index_bound [OF assms(2,3)] by (simp add: valid_dispatch_def)
  have "x < gx * ch" and "y < gy * cw"
    using assms by (simp_all add: valid_dispatch_def)
  then have "x div ch < gx" and "y div cw < gy"
    using cw ch by (simp_all add: less_mult_imp_div_less)
  then have mem: "?wid \<in> set (workgroup_ids gx gy)"
    by (simp add: workgroup_ids_iff)
  have inside: "?j \<in> tile_indices cw ch params ?wid"
    by (rule pixel_in_tile [OF cw ch wh assms(2,3)])
  have other: "\<forall>wid' \<in> set (workgroup_ids gx gy).
                 wid' \<noteq> ?wid \<longrightarrow> ?j \<notin> tile_indices cw ch params wid'"
  proof (intro ballI impI notI)
    fix wid'
    assume "wid' \<noteq> ?wid" and "?j \<in> tile_indices cw ch params wid'"
    then have "wid' = ((?j mod width params) div ch, (?j div width params) div cw)"
      using tile_indices_unique(2) [OF cw ch wh] by blast
    moreover have "?wid = ((?j mod width params) div ch, (?j div width params) div cw)"
      by (rule tile_indices_unique(2) [OF cw ch wh inside])
    ultimately show False
      using \<open>wid' \<noteq> ?wid\<close> by simp
  qed
  show ?thesis
    by (rule fold_workgroup_result_inside [OF valid_chunk_size [OF assms(1)] j mem inside other])
qed

section \<open>Properties of the result buffer\<close>

lemma dispatch_pixel_load:
  assumes "valid_dispatch cw ch gx gy params st"
    and "x < width params" and "y < height params"
  shows "load (pixelData st) (y * width params + x) = pixelData st ! (y * width params + x)"
  using assms(1) index_bound [OF assms(2,3)] by (simp add: valid_dispatch_def load_def)



lemma tile_value_nonzero:
  assumes "0 < chunk_size cw ch"
  shows "tile_value cw ch params pd wid j \<noteq> 0"
  using tile_state_local_max_nonzero [OF assms] by (simp add: tile_value_def)

lemma dispatch_length_result:
  assumes "valid_dispatch cw ch gx gy params st"
  shows "length (resultArrayList (fold (workgroup_result cw ch params) (workgroup_ids gx gy) st))
           = width params * height params"
  using assms fold_workgroup_length_result [OF valid_chunk_size [OF assms]]
  by (simp add: valid_dispatch_def)

lemma index_decompose:
  assumes "j < w * (h :: nat)"
  shows "j mod w < w" and "j div w < h" and "(j div w) * w + j mod w = j"
proof -
  have "0 < w" using assms by (cases w) simp_all
  then show "j mod w < w" by simp
  show "j div w < h" using assms by (simp add: less_mult_imp_div_less mult.commute)
  show "(j div w) * w + j mod w = j" by simp
qed

lemma result_buffer_no_sentinel_aux:
  assumes "valid_dispatch cw ch gx gy params st"
  shows "\<exists>st'. dispatch cw ch gx gy params st = Some st' \<and> 0 \<notin> set (resultArrayList st')"
proof -
  let ?st' = "fold (workgroup_result cw ch params) (workgroup_ids gx gy) st"
  have "resultArrayList ?st' ! j \<noteq> 0" if "j < length (resultArrayList ?st')" for j
  proof -
    have j: "j < width params * height params"
      using that by (simp add: dispatch_length_result [OF assms])
    have "resultArrayList ?st' ! ((j div width params) * width params + j mod width params)
            \<noteq> 0"
      using dispatch_pixel [OF assms index_decompose(1,2) [OF j]]
        tile_value_nonzero [OF valid_chunk_size(1) [OF assms]]
      by simp
    with index_decompose(3) [OF j] show ?thesis
      by simp
  qed
  then have "0 \<notin> set (resultArrayList ?st')"
    by (metis in_set_conv_nth)
  then show ?thesis
    using dispatch_eq [OF valid_chunk_size [OF assms], of gx gy params st] by simp
qed

text \<open>
  C9. After a dispatch that covers the image no entry of the result buffer is the sentinel
  0: a copied pixel is not 0, and a filled pixel holds \<open>local_max\<close>, which is the seed
  \<open>RGBA 1 0 0 0\<close> or a pixel that was not 0.
\<close>

theorem result_buffer_has_no_sentinel:
  assumes "valid_dispatch cw ch gx gy params st"
  shows "\<exists>st'. dispatch cw ch gx gy params st = Some st' \<and> 0 \<notin> set (resultArrayList st')"
  using assms by (rule result_buffer_no_sentinel_aux)

theorem result_buffer_has_no_sentinel_witness:
  "valid_dispatch 2 2 2 2 \<lparr>width = 3, height = 3, debug = 1\<rparr>
     \<lparr>resultArrayList = [0, 0, 0, 0, 0, 0, 0, 0, 0], belowMinMatrix_length = 0,
      pixelData = [5, 0, 3, 0, 0x05000000, 0, 0, 0, 0], debugData = [7, 7, 7, 7]\<rparr>
   \<and> (\<exists>st'. dispatch 2 2 2 2 \<lparr>width = 3, height = 3, debug = 1\<rparr>
          \<lparr>resultArrayList = [0, 0, 0, 0, 0, 0, 0, 0, 0], belowMinMatrix_length = 0,
           pixelData = [5, 0, 3, 0, 0x05000000, 0, 0, 0, 0], debugData = [7, 7, 7, 7]\<rparr>
          = Some st' \<and> 0 \<notin> set (resultArrayList st'))"
proof -
  let ?p = "\<lparr>width = 3, height = 3, debug = 1\<rparr>"
  let ?st = "\<lparr>resultArrayList = [0, 0, 0, 0, 0, 0, 0, 0, 0], belowMinMatrix_length = 0,
      pixelData = [5, 0, 3, 0, 0x05000000, 0, 0, 0, 0], debugData = [7, 7, 7, 7]\<rparr>"
  have v: "valid_dispatch 2 2 2 2 ?p ?st"
    by code_simp
  show ?thesis
    using v result_buffer_has_no_sentinel [OF v] by simp
qed

lemma in_bounds_pixel_index:
  assumes "in_bounds params iv"
  shows "pixel_index params iv < width params * height params"
proof -
  have "snd (global_id iv) * width params + fst (global_id iv) < width params * height params"
    using assms by (intro index_bound) (simp_all add: in_bounds_def)
  moreover have "pixel_index params iv \<le> snd (global_id iv) * width params + fst (global_id iv)"
    by (simp add: pixel_index_def)
  ultimately show ?thesis by simp
qed

lemma no_sentinel_not_missing:
  assumes "length pd = width params * height params" and "0 \<notin> set pd"
  shows "\<not> missing params pd iv"
proof
  assume m: "missing params pd iv"
  then have "pixel_index params iv < length pd"
    using in_bounds_pixel_index [of params iv] assms(1) by (simp add: missing_def)
  then have "load pd (pixel_index params iv) \<in> set pd"
    by (simp add: load_def)
  then show False
    using m assms(2) by (simp add: missing_def)
qed

lemma no_sentinel_tile_missing:
  assumes "chunk_size cw ch \<le> 2 ^ 31"
    and "length pd = width params * height params" and "0 \<notin> set pd"
  shows "tile_missing cw ch params pd wid = 0"
  by (simp add: tile_missing_def tile_state_vectors_length [OF assms(1)]
        no_sentinel_not_missing [OF assms(2,3)])

lemma no_sentinel_dispatch:
  assumes "valid_dispatch cw ch gx gy params st" and "0 \<notin> set (pixelData st)"
  shows "resultArrayList (fold (workgroup_result cw ch params) (workgroup_ids gx gy) st)
           = pixelData st"
    and "belowMinMatrix_length (fold (workgroup_result cw ch params) (workgroup_ids gx gy) st)
           = belowMinMatrix_length st"
proof -
  let ?st' = "fold (workgroup_result cw ch params) (workgroup_ids gx gy) st"
  note cs = valid_chunk_size [OF assms(1)]
  have len: "length (pixelData st) = width params * height params"
    and c: "belowMinMatrix_length st < 2 ^ 32"
    using assms(1) by (simp_all add: valid_dispatch_def)
  show "resultArrayList ?st' = pixelData st"
  proof (rule nth_equalityI)
    show "length (resultArrayList ?st') = length (pixelData st)"
      by (simp add: dispatch_length_result [OF assms(1)] len)
  next
    fix j
    assume "j < length (resultArrayList ?st')"
    then have j: "j < width params * height params"
      by (simp add: dispatch_length_result [OF assms(1)])
    have "pixelData st ! j \<noteq> 0"
      using assms(2) j len by (metis nth_mem)
    then have nz: "load (pixelData st) j \<noteq> 0"
      using j len by (simp add: load_def)
    have "resultArrayList ?st' ! ((j div width params) * width params + j mod width params)
            = load (pixelData st) j"
      using dispatch_pixel [OF assms(1) index_decompose(1,2) [OF j]] nz
      by (simp add: tile_value_def)
    then show "resultArrayList ?st' ! j = pixelData st ! j"
      using j len by (simp add: load_def)
  qed
  have s0: "sum_list (map (tile_missing cw ch params (pixelData st)) (workgroup_ids gx gy)) = 0"
    by (simp add: no_sentinel_tile_missing [OF cs(2) len assms(2)])
  show "belowMinMatrix_length ?st' = belowMinMatrix_length st"
    unfolding fold_workgroup_counter [OF cs c] s0 using c by simp
qed

text \<open>
  C7. A second dispatch whose \<open>pixelData\<close> is the result buffer of a first dispatch
  returns a result buffer equal to its input and leaves \<open>belowMinMatrix.length\<close> as it
  found it.
\<close>

theorem second_run_is_noop:
  assumes "valid_dispatch cw ch gx gy params st"
    and "dispatch cw ch gx gy params st = Some st1"
    and "valid_dispatch cw ch gx gy params st2"
    and "pixelData st2 = resultArrayList st1"
  shows "\<exists>st3. dispatch cw ch gx gy params st2 = Some st3
           \<and> resultArrayList st3 = pixelData st2
           \<and> belowMinMatrix_length st3 = belowMinMatrix_length st2"
proof -
  obtain st' where "dispatch cw ch gx gy params st = Some st'"
    and "0 \<notin> set (resultArrayList st')"
    using result_buffer_no_sentinel_aux [OF assms(1)] by blast
  then have "0 \<notin> set (pixelData st2)"
    using assms(2,4) by simp
  then show ?thesis
    using dispatch_eq [OF valid_chunk_size [OF assms(3)], of gx gy params st2]
      no_sentinel_dispatch [OF assms(3)]
    by simp
qed

theorem second_run_is_noop_witness:
  "valid_dispatch 2 2 1 1 \<lparr>width = 2, height = 2, debug = 0\<rparr>
     \<lparr>resultArrayList = [0, 0, 0, 0], belowMinMatrix_length = 0,
      pixelData = [5, 0, 3, 0], debugData = []\<rparr>
   \<and> dispatch 2 2 1 1 \<lparr>width = 2, height = 2, debug = 0\<rparr>
         \<lparr>resultArrayList = [0, 0, 0, 0], belowMinMatrix_length = 0,
          pixelData = [5, 0, 3, 0], debugData = []\<rparr>
       = Some \<lparr>resultArrayList = [5, 16777216, 3, 16777216], belowMinMatrix_length = 8,
                pixelData = [5, 0, 3, 0], debugData = []\<rparr>
   \<and> valid_dispatch 2 2 1 1 \<lparr>width = 2, height = 2, debug = 0\<rparr>
         \<lparr>resultArrayList = [0, 0, 0, 0], belowMinMatrix_length = 8,
          pixelData = [5, 16777216, 3, 16777216], debugData = []\<rparr>
   \<and> (\<exists>st3. dispatch 2 2 1 1 \<lparr>width = 2, height = 2, debug = 0\<rparr>
          \<lparr>resultArrayList = [0, 0, 0, 0], belowMinMatrix_length = 8,
           pixelData = [5, 16777216, 3, 16777216], debugData = []\<rparr> = Some st3
        \<and> resultArrayList st3 = [5, 16777216, 3, 16777216]
        \<and> belowMinMatrix_length st3 = 8)"
proof -
  let ?p = "\<lparr>width = 2, height = 2, debug = 0\<rparr>"
  let ?st = "\<lparr>resultArrayList = [0, 0, 0, 0], belowMinMatrix_length = 0,
      pixelData = [5, 0, 3, 0], debugData = []\<rparr>"
  let ?st1 = "\<lparr>resultArrayList = [5, 16777216, 3, 16777216], belowMinMatrix_length = 8,
      pixelData = [5, 0, 3, 0], debugData = []\<rparr>"
  let ?st2 = "\<lparr>resultArrayList = [0, 0, 0, 0], belowMinMatrix_length = 8,
      pixelData = [5, 16777216, 3, 16777216], debugData = []\<rparr>"
  have v: "valid_dispatch 2 2 1 1 ?p ?st"
    by code_simp
  have d: "dispatch 2 2 1 1 ?p ?st = Some ?st1"
    by code_simp
  have v2: "valid_dispatch 2 2 1 1 ?p ?st2"
    by code_simp
  have "pixelData ?st2 = resultArrayList ?st1"
    by simp
  from second_run_is_noop [OF v d v2 this] show ?thesis
    using v d v2 by simp
qed

lemma tile_state_cong:
  assumes "0 < cw" and "0 < ch" and "width params * height params \<le> 2 ^ 32"
    and "length pa = width params * height params"
    and "length pb = width params * height params"
    and "\<forall>x y. x < width params \<and> y < height params \<and> (x div ch, y div cw) = wid \<longrightarrow>
           pa ! (y * width params + x) = pb ! (y * width params + x)"
  shows "tile_state cw ch params pa wid = tile_state cw ch params pb wid"
  unfolding tile_state_def
proof (rule fold_track_cong)
  fix iv
  assume iv: "iv \<in> set (invocations cw ch wid)" and ib: "in_bounds params iv"
  let ?j = "pixel_index params iv"
  have mem: "?j \<in> tile_indices cw ch params wid"
    using iv ib by (auto simp add: tile_indices_def)
  have j: "?j < width params * height params"
    by (rule tile_indices_unique(1) [OF assms(1,2,3) mem])
  have wid: "wid = ((?j mod width params) div ch, (?j div width params) div cw)"
    by (rule tile_indices_unique(2) [OF assms(1,2,3) mem])
  have "pa ! ((?j div width params) * width params + ?j mod width params) =
        pb ! ((?j div width params) * width params + ?j mod width params)"
    using assms(6) index_decompose(1,2) [OF j] wid by blast
  then have "pa ! ?j = pb ! ?j"
    by (simp only: index_decompose(3) [OF j])
  then show "load pa ?j = load pb ?j"
    using j assms(4,5) by (simp add: load_def)
qed

text \<open>
  C8. Two dispatches with the same parameters, whose inputs agree on the pixels of one tile
  and may differ anywhere else, return result buffers that agree on the pixels of that
  tile.
\<close>

theorem tiles_do_not_interfere:
  assumes "valid_dispatch cw ch gx gy params sa" and "valid_dispatch cw ch gx gy params sb"
    and "\<forall>x y. x < width params \<and> y < height params \<and> (x div ch, y div cw) = wid \<longrightarrow>
           pixelData sa ! (y * width params + x) = pixelData sb ! (y * width params + x)"
  shows "\<exists>sa' sb'. dispatch cw ch gx gy params sa = Some sa'
           \<and> dispatch cw ch gx gy params sb = Some sb'
           \<and> (\<forall>x y. x < width params \<and> y < height params \<and> (x div ch, y div cw) = wid \<longrightarrow>
                  resultArrayList sa' ! (y * width params + x) =
                  resultArrayList sb' ! (y * width params + x))"
proof -
  let ?sa' = "fold (workgroup_result cw ch params) (workgroup_ids gx gy) sa"
  let ?sb' = "fold (workgroup_result cw ch params) (workgroup_ids gx gy) sb"
  have ts: "tile_state cw ch params (pixelData sa) wid =
            tile_state cw ch params (pixelData sb) wid"
    using assms by (intro tile_state_cong) (simp_all add: valid_dispatch_def)
  have "resultArrayList ?sa' ! (y * width params + x) =
        resultArrayList ?sb' ! (y * width params + x)"
    if "x < width params" and "y < height params" and "(x div ch, y div cw) = wid" for x y
  proof -
    have "pixelData sa ! (y * width params + x) = pixelData sb ! (y * width params + x)"
      using assms(3) that by blast
    then have "load (pixelData sa) (y * width params + x) =
               load (pixelData sb) (y * width params + x)"
      by (simp only: dispatch_pixel_load [OF assms(1) that(1,2)]
            dispatch_pixel_load [OF assms(2) that(1,2)])
    then show ?thesis
      by (simp only: dispatch_pixel [OF assms(1) that(1,2)]
            dispatch_pixel [OF assms(2) that(1,2)] tile_value_def that(3) ts)
  qed
  then show ?thesis
    using dispatch_eq [OF valid_chunk_size [OF assms(1)], of gx gy params sa]
      dispatch_eq [OF valid_chunk_size [OF assms(2)], of gx gy params sb]
    by simp
qed

theorem tiles_do_not_interfere_witness:
  "valid_dispatch 1 2 2 1 \<lparr>width = 4, height = 1, debug = 0\<rparr>
     \<lparr>resultArrayList = [0, 0, 0, 0], belowMinMatrix_length = 0,
      pixelData = [0, 5, 7, 0], debugData = []\<rparr>
   \<and> valid_dispatch 1 2 2 1 \<lparr>width = 4, height = 1, debug = 0\<rparr>
     \<lparr>resultArrayList = [1, 1, 1, 1], belowMinMatrix_length = 0,
      pixelData = [0, 5, 0, 0x09000000], debugData = []\<rparr>
   \<and> (\<exists>sa' sb'.
         dispatch 1 2 2 1 \<lparr>width = 4, height = 1, debug = 0\<rparr>
           \<lparr>resultArrayList = [0, 0, 0, 0], belowMinMatrix_length = 0,
            pixelData = [0, 5, 7, 0], debugData = []\<rparr> = Some sa'
       \<and> dispatch 1 2 2 1 \<lparr>width = 4, height = 1, debug = 0\<rparr>
           \<lparr>resultArrayList = [1, 1, 1, 1], belowMinMatrix_length = 0,
            pixelData = [0, 5, 0, 0x09000000], debugData = []\<rparr> = Some sb'
       \<and> resultArrayList sa' ! 0 = resultArrayList sb' ! 0
       \<and> resultArrayList sa' ! 1 = resultArrayList sb' ! 1)"
proof -
  let ?p = "\<lparr>width = 4, height = 1, debug = 0\<rparr>"
  let ?sa = "\<lparr>resultArrayList = [0, 0, 0, 0], belowMinMatrix_length = 0,
      pixelData = [0, 5, 7, 0], debugData = []\<rparr>"
  let ?sb = "\<lparr>resultArrayList = [1, 1, 1, 1], belowMinMatrix_length = 0,
      pixelData = [0, 5, 0, 0x09000000], debugData = []\<rparr>"
  have va: "valid_dispatch 1 2 2 1 ?p ?sa"
    by code_simp
  have vb: "valid_dispatch 1 2 2 1 ?p ?sb"
    by code_simp
  have agree: "\<forall>x y. x < width ?p \<and> y < height ?p \<and> (x div 2, y div 1) = (0, 0) \<longrightarrow>
                 pixelData ?sa ! (y * width ?p + x) = pixelData ?sb ! (y * width ?p + x)"
  proof (intro allI impI)
    fix x y :: nat
    assume a: "x < width ?p \<and> y < height ?p \<and> (x div 2, y div 1) = (0, 0)"
    then have y: "y = 0" and "x div 2 = 0"
      by simp_all
    then have "x = 0 \<or> x = 1"
      by auto
    then show "pixelData ?sa ! (y * width ?p + x) = pixelData ?sb ! (y * width ?p + x)"
      using y by auto
  qed
  obtain sa' sb' where da: "dispatch 1 2 2 1 ?p ?sa = Some sa'"
    and db: "dispatch 1 2 2 1 ?p ?sb = Some sb'"
    and r: "\<forall>x y. x < width ?p \<and> y < height ?p \<and> (x div 2, y div 1) = (0, 0) \<longrightarrow>
              resultArrayList sa' ! (y * width ?p + x) =
              resultArrayList sb' ! (y * width ?p + x)"
    using tiles_do_not_interfere [OF va vb agree] by blast
  have "resultArrayList sa' ! 0 = resultArrayList sb' ! 0"
    using r [rule_format, of 0 0] by simp
  moreover have "resultArrayList sa' ! 1 = resultArrayList sb' ! 1"
    using r [rule_format, of 1 0] by simp
  ultimately show ?thesis
    using va vb da db by simp
qed

section \<open>The missing list and the strided loop\<close>





section \<open>Invocations outside the image\<close>

text \<open>
  C4, as stated, fails. In a workgroup of 2 by 2 invocations on an image 1 wide and 2
  high, both pixels missing, the invocation with local index 1 sits at the global position
  \<open>(1, 0)\<close>, outside the image. After the barrier it fills the second recorded entry
  (result index 1), adds to \<open>belowMinMatrix.length\<close> and writes \<open>debugData\<close>.
\<close>

theorem out_of_bounds_thread_writes_after_barrier:
  "\<not> (fst (global_id (invocation 2 2 (0, 0) 1)) < width \<lparr>width = 1, height = 2, debug = 1\<rparr>
       \<and> snd (global_id (invocation 2 2 (0, 0) 1))
           < height \<lparr>width = 1, height = 2, debug = 1\<rparr>)
   \<and> snd (workgroup_phase1 2 2 \<lparr>width = 1, height = 2, debug = 1\<rparr> (0, 0)
          \<lparr>resultArrayList = [9, 9], belowMinMatrix_length = 0,
           pixelData = [0, 0], debugData = [7]\<rparr>)
       = \<lparr>resultArrayList = [0, 0], belowMinMatrix_length = 0,
          pixelData = [0, 0], debugData = [7]\<rparr>
   \<and> main_phase2 (chunk_size 2 2) \<lparr>width = 1, height = 2, debug = 1\<rparr>
         (invocation 2 2 (0, 0) 1)
         (fst (workgroup_phase1 2 2 \<lparr>width = 1, height = 2, debug = 1\<rparr> (0, 0)
                \<lparr>resultArrayList = [9, 9], belowMinMatrix_length = 0,
                 pixelData = [0, 0], debugData = [7]\<rparr>))
         \<lparr>resultArrayList = [0, 0], belowMinMatrix_length = 0,
          pixelData = [0, 0], debugData = [7]\<rparr>
       = Some \<lparr>resultArrayList = [0, 16777216], belowMinMatrix_length = 2,
                pixelData = [0, 0], debugData = [2]\<rparr>"
  by code_simp

text \<open>
  C4, amended. An invocation whose global position lies outside \<open>width \<times> height\<close> writes
  no buffer before the barrier: the storage buffers, the missing list \<open>vectors\<close> and
  \<open>vectors_length\<close> are as it found them (it may seed \<open>local_min\<close> and \<open>local_max\<close>).
\<close>

theorem out_of_bounds_thread_writes_nothing_before_barrier:
  assumes "\<not> (fst (global_id iv) < width params \<and> snd (global_id iv) < height params)"
  shows "snd (main_phase1 params iv (wg, st)) = st
       \<and> vectors (fst (main_phase1 params iv (wg, st))) = vectors wg
       \<and> vectors_length (fst (main_phase1 params iv (wg, st))) = vectors_length wg"
proof -
  have nb: "\<not> in_bounds params iv"
    using assms by (simp add: in_bounds_def)
  then have nm: "\<not> missing params pd iv" for pd
    by (simp add: missing_def)
  show ?thesis
    by (simp add: main_phase1_split copy_pixel_def track_vectors track_vectors_length nb nm)
qed

theorem out_of_bounds_thread_writes_nothing_before_barrier_witness:
  "\<not> (fst (global_id (invocation 2 2 (0, 0) 1)) < width \<lparr>width = 1, height = 2, debug = 1\<rparr>
       \<and> snd (global_id (invocation 2 2 (0, 0) 1))
           < height \<lparr>width = 1, height = 2, debug = 1\<rparr>)
   \<and> snd (main_phase1 \<lparr>width = 1, height = 2, debug = 1\<rparr> (invocation 2 2 (0, 0) 1)
            (workgroup_init 4,
             \<lparr>resultArrayList = [9, 9], belowMinMatrix_length = 0,
              pixelData = [0, 0], debugData = [7]\<rparr>))
       = \<lparr>resultArrayList = [9, 9], belowMinMatrix_length = 0,
          pixelData = [0, 0], debugData = [7]\<rparr>
   \<and> vectors_length
         (fst (main_phase1 \<lparr>width = 1, height = 2, debug = 1\<rparr> (invocation 2 2 (0, 0) 1)
                 (workgroup_init 4,
                  \<lparr>resultArrayList = [9, 9], belowMinMatrix_length = 0,
                   pixelData = [0, 0], debugData = [7]\<rparr>))) = 0"
proof -
  let ?p = "\<lparr>width = 1, height = 2, debug = 1\<rparr>"
  have out: "\<not> (fst (global_id (invocation 2 2 (0, 0) 1)) < width ?p
                 \<and> snd (global_id (invocation 2 2 (0, 0) 1)) < height ?p)"
    by simp
  show ?thesis
    using out out_of_bounds_thread_writes_nothing_before_barrier [OF out,
        of "workgroup_init 4" "\<lparr>resultArrayList = [9, 9], belowMinMatrix_length = 0,
              pixelData = [0, 0], debugData = [7]\<rparr>"]
    by (simp add: workgroup_init_def)
qed

section \<open>The debug buffer\<close>







section \<open>Scenario A\<close>

text \<open>
  C2, as stated, fails. On the 2 by 2 image \<open>[5, 0, 3, 0]\<close> with one 2 by 2 tile both
  zeros are replaced by 16777216, which is \<open>RGBA 1 0 0 0\<close>, the seed of \<open>local_max\<close>,
  and neither 5 nor 3; and \<open>belowMinMatrix.length\<close> ends at 8.
\<close>

theorem scenario_A_filled_with_seed:
  "dispatch 2 2 1 1 \<lparr>width = 2, height = 2, debug = 1\<rparr>
     \<lparr>resultArrayList = [0, 0, 0, 0], belowMinMatrix_length = 0,
      pixelData = [5, 0, 3, 0], debugData = [0]\<rparr>
   = Some \<lparr>resultArrayList = [5, 16777216, 3, 16777216], belowMinMatrix_length = 8,
            pixelData = [5, 0, 3, 0], debugData = [2]\<rparr>
   \<and> (16777216 :: u32) \<noteq> 5 \<and> (16777216 :: u32) \<noteq> 3"
  by code_simp

text \<open>
  C2, amended. For the 2 by 2 image \<open>[5, 0, 3, 0]\<close> with one 2 by 2 tile: the values 5
  and 3 have only bits of the lowest byte set, which \<open>colorVector\<close> does not read, so
  their luminance is 0, below the luminance of the seed \<open>RGBA 1 0 0 0\<close>; \<open>local_max\<close>
  stays the seed, both zeros are replaced by it, and the missing count of the tile
  (\<open>vectors_length\<close>, which the debug buffer receives) is 2. The three luminances are
  exact in \<open>f32\<close> as well: two are 0 and the third is positive.
\<close>

theorem scenario_A_tile:
  "srgbLuminance 5 = 0 \<and> srgbLuminance 3 = 0 \<and> 0 < srgbLuminance (RGBA 1 0 0 0)
   \<and> local_max (fst (workgroup_phase1 2 2 \<lparr>width = 2, height = 2, debug = 1\<rparr> (0, 0)
        \<lparr>resultArrayList = [0, 0, 0, 0], belowMinMatrix_length = 0,
         pixelData = [5, 0, 3, 0], debugData = [0]\<rparr>)) = RGBA 1 0 0 0
   \<and> vectors_length (fst (workgroup_phase1 2 2 \<lparr>width = 2, height = 2, debug = 1\<rparr> (0, 0)
        \<lparr>resultArrayList = [0, 0, 0, 0], belowMinMatrix_length = 0,
         pixelData = [5, 0, 3, 0], debugData = [0]\<rparr>)) = 2
   \<and> map_option resultArrayList
         (dispatch 2 2 1 1 \<lparr>width = 2, height = 2, debug = 1\<rparr>
            \<lparr>resultArrayList = [0, 0, 0, 0], belowMinMatrix_length = 0,
             pixelData = [5, 0, 3, 0], debugData = [0]\<rparr>)
       = Some [5, RGBA 1 0 0 0, 3, RGBA 1 0 0 0]
   \<and> map_option debugData
         (dispatch 2 2 1 1 \<lparr>width = 2, height = 2, debug = 1\<rparr>
            \<lparr>resultArrayList = [0, 0, 0, 0], belowMinMatrix_length = 0,
             pixelData = [5, 0, 3, 0], debugData = [0]\<rparr>)
       = Some [2]"
  by code_simp

section \<open>The value of the global counter\<close>

lemma distinct_workgroup_ids: "distinct (workgroup_ids gx gy)"
proof -
  have "workgroup_ids gx gy = map prod.swap (List.product [0..<gy] [0..<gx])"
    by (simp add: workgroup_ids_def product_concat_map map_concat comp_def)
  moreover have "distinct (map prod.swap (List.product [0..<gy] [0..<gx]))"
    by (simp add: distinct_map distinct_product)
  ultimately show ?thesis by simp
qed

lemma invocation_inj:
  assumes "invocation cw ch wid k = invocation cw ch wid k'"
  shows "k = k'"
  using assms by (simp add: invocation_def Let_def)

lemma distinct_invocations: "distinct (invocations cw ch wid)"
  by (auto simp add: invocations_def distinct_map inj_on_def dest: invocation_inj)

lemma pixel_index_in_bounds:
  assumes "width params * height params \<le> 2 ^ 32" and "in_bounds params iv"
  shows "pixel_index params iv = snd (global_id iv) * width params + fst (global_id iv)"
proof -
  have "snd (global_id iv) * width params + fst (global_id iv) < width params * height params"
    using assms(2) by (intro index_bound) (simp_all add: in_bounds_def)
  then show ?thesis
    using assms(1) by (simp add: pixel_index_def)
qed

lemma pixel_index_inj:
  assumes "0 < ch" and "width params * height params \<le> 2 ^ 32"
    and "in_bounds params (invocation cw ch wid k)"
    and "in_bounds params (invocation cw ch wid k')"
    and "pixel_index params (invocation cw ch wid k) =
         pixel_index params (invocation cw ch wid k')"
  shows "k = k'"
proof -
  let ?w = "width params"
  have gx: "fst wid * ch + k mod ch < ?w" and gx': "fst wid * ch + k' mod ch < ?w"
    using assms(3,4) by (simp_all add: in_bounds_def)
  have eq: "(snd wid * cw + k div ch) * ?w + (fst wid * ch + k mod ch) =
            (snd wid * cw + k' div ch) * ?w + (fst wid * ch + k' mod ch)"
    using assms(5)
    by (simp only: pixel_index_in_bounds [OF assms(2,3)] pixel_index_in_bounds [OF assms(2,4)]
          global_id_invocation fst_conv snd_conv)
  have "((snd wid * cw + k div ch) * ?w + (fst wid * ch + k mod ch)) mod ?w =
        fst wid * ch + k mod ch"
    using gx by simp
  moreover have "((snd wid * cw + k' div ch) * ?w + (fst wid * ch + k' mod ch)) mod ?w =
        fst wid * ch + k' mod ch"
    using gx' by simp
  ultimately have m: "k mod ch = k' mod ch"
    using eq by simp
  have "((snd wid * cw + k div ch) * ?w + (fst wid * ch + k mod ch)) div ?w =
        snd wid * cw + k div ch"
    using gx by simp
  moreover have "((snd wid * cw + k' div ch) * ?w + (fst wid * ch + k' mod ch)) div ?w =
        snd wid * cw + k' div ch"
    using gx' by simp
  ultimately have d: "k div ch = k' div ch"
    using eq by simp
  have "k = (k div ch) * ch + k mod ch" by simp
  also have "\<dots> = (k' div ch) * ch + k' mod ch" by (simp only: m d)
  also have "\<dots> = k'" by simp
  finally show ?thesis .
qed

lemma tile_missing_card:
  assumes "0 < ch" and "chunk_size cw ch \<le> 2 ^ 31"
    and "width params * height params \<le> 2 ^ 32"
    and "length pd = width params * height params"
  shows "tile_missing cw ch params pd wid =
           card (sentinel_indices pd \<inter> tile_indices cw ch params wid)"
proof -
  let ?ms = "filter (missing params pd) (invocations cw ch wid)"
  have "tile_missing cw ch params pd wid = length ?ms"
    by (simp add: tile_missing_def tile_state_vectors_length [OF assms(2)])
  also have "\<dots> = card (set ?ms)"
    by (rule distinct_card [symmetric]) (rule distinct_filter, rule distinct_invocations)
  also have "\<dots> = card (pixel_index params ` set ?ms)"
  proof (rule card_image [symmetric])
    show "inj_on (pixel_index params) (set ?ms)"
      by (auto simp add: inj_on_def invocations_def missing_def
            dest: pixel_index_inj [OF assms(1,3)])
  qed
  also have "pixel_index params ` set ?ms =
               sentinel_indices pd \<inter> tile_indices cw ch params wid"
  proof (intro set_eqI iffI)
    fix j
    assume "j \<in> pixel_index params ` set ?ms"
    then obtain iv where iv: "iv \<in> set (invocations cw ch wid)" "missing params pd iv"
      "j = pixel_index params iv"
      by auto
    then have "j < length pd"
      using in_bounds_pixel_index [of params iv] assms(4) by (simp add: missing_def)
    then show "j \<in> sentinel_indices pd \<inter> tile_indices cw ch params wid"
      using iv by (auto simp add: sentinel_indices_def tile_indices_def missing_def load_def)
  next
    fix j
    assume "j \<in> sentinel_indices pd \<inter> tile_indices cw ch params wid"
    then show "j \<in> pixel_index params ` set ?ms"
      by (auto simp add: sentinel_indices_def tile_indices_def missing_def load_def)
  qed
  finally show ?thesis .
qed

lemma sentinel_indices_covered:
  assumes "valid_dispatch cw ch gx gy params st"
  shows "(\<Union>wid \<in> set (workgroup_ids gx gy).
            sentinel_indices (pixelData st) \<inter> tile_indices cw ch params wid) =
         sentinel_indices (pixelData st)"
proof (intro set_eqI iffI)
  fix j
  assume "j \<in> sentinel_indices (pixelData st)"
  then have j: "j < width params * height params"
    using assms by (simp add: sentinel_indices_def valid_dispatch_def)
  let ?x = "j mod width params" and ?y = "j div width params"
  have cw: "0 < cw" and ch: "0 < ch" and wh: "width params * height params \<le> 2 ^ 32"
    using assms by (simp_all add: valid_dispatch_def)
  have "?x < gx * ch" and "?y < gy * cw"
    using assms index_decompose(1,2) [OF j] by (simp_all add: valid_dispatch_def)
  then have "?x div ch < gx" and "?y div cw < gy"
    using cw ch by (simp_all add: less_mult_imp_div_less)
  then have mem: "(?x div ch, ?y div cw) \<in> set (workgroup_ids gx gy)"
    by (simp add: workgroup_ids_iff)
  have "?y * width params + ?x \<in> tile_indices cw ch params (?x div ch, ?y div cw)"
    by (rule pixel_in_tile [OF cw ch wh index_decompose(1,2) [OF j]])
  then have "j \<in> tile_indices cw ch params (?x div ch, ?y div cw)"
    by (simp only: index_decompose(3) [OF j])
  then show "j \<in> (\<Union>wid \<in> set (workgroup_ids gx gy).
                 sentinel_indices (pixelData st) \<inter> tile_indices cw ch params wid)"
    using mem \<open>j \<in> sentinel_indices (pixelData st)\<close> by blast
qed blast

lemma sum_tile_missing:
  assumes "valid_dispatch cw ch gx gy params st"
  shows "sum_list (map (tile_missing cw ch params (pixelData st)) (workgroup_ids gx gy)) =
           length (filter (\<lambda>pixel. pixel = 0) (pixelData st))"
proof -
  let ?pd = "pixelData st"
  let ?T = "\<lambda>wid. sentinel_indices ?pd \<inter> tile_indices cw ch params wid"
  have cw: "0 < cw" and ch: "0 < ch" and wh: "width params * height params \<le> 2 ^ 32"
    and len: "length ?pd = width params * height params"
    using assms by (simp_all add: valid_dispatch_def)
  note cs = valid_chunk_size [OF assms]
  have fin: "finite (?T wid)" for wid
    by (simp add: sentinel_indices_def)
  have disj: "\<forall>wid \<in> set (workgroup_ids gx gy). \<forall>wid' \<in> set (workgroup_ids gx gy).
                wid \<noteq> wid' \<longrightarrow> ?T wid \<inter> ?T wid' = {}"
    using tile_indices_unique(2) [OF cw ch wh] by blast
  have "sum_list (map (tile_missing cw ch params ?pd) (workgroup_ids gx gy)) =
          sum (tile_missing cw ch params ?pd) (set (workgroup_ids gx gy))"
    by (rule sum_list_distinct_conv_sum_set [OF distinct_workgroup_ids])
  also have "\<dots> = (\<Sum>wid \<in> set (workgroup_ids gx gy). card (?T wid))"
    by (intro sum.cong refl tile_missing_card [OF ch cs(2) wh len])
  also have "\<dots> = card (\<Union>wid \<in> set (workgroup_ids gx gy). ?T wid)"
    by (rule card_UN_disjoint [symmetric]) (simp_all add: fin disj)
  also have "\<dots> = card (sentinel_indices ?pd)"
    by (simp only: sentinel_indices_covered [OF assms])
  also have "\<dots> = length (filter (\<lambda>pixel. pixel = 0) ?pd)"
    by (simp add: sentinel_indices_def length_filter_conv_card)
  finally show ?thesis .
qed

text \<open>
  What the counter holds after a dispatch that covers the image: every invocation adds the
  missing count of its tile, so the number of sentinel pixels of the input arrives
  multiplied by \<open>chunk_size\<close>, modulo \<open>2 ^ 32\<close>.
\<close>

lemma counter_after_dispatch:
  assumes "valid_dispatch cw ch gx gy params st"
  shows "\<exists>st'. dispatch cw ch gx gy params st = Some st'
           \<and> belowMinMatrix_length st' =
               (belowMinMatrix_length st
                  + chunk_size cw ch * length (filter (\<lambda>pixel. pixel = 0) (pixelData st)))
               mod 2 ^ 32"
proof -
  note cs = valid_chunk_size [OF assms]
  have c: "belowMinMatrix_length st < 2 ^ 32"
    using assms by (simp add: valid_dispatch_def)
  have "belowMinMatrix_length (fold (workgroup_result cw ch params) (workgroup_ids gx gy) st) =
          (belowMinMatrix_length st
             + chunk_size cw ch * length (filter (\<lambda>pixel. pixel = 0) (pixelData st)))
          mod 2 ^ 32"
    by (simp only: fold_workgroup_counter [OF cs c] sum_tile_missing [OF assms])
  then show ?thesis
    by (simp add: dispatch_eq [OF cs])
qed

text \<open>
  C1. Every invocation of a workgroup executes
  \<open>atomicAdd(&belowMinMatrix.length, current_vector_length)\<close>, so a tile adds its missing
  count once per invocation. On the 2 by 2 image \<open>[5, 0, 3, 0]\<close> with one 2 by 2 tile the
  input holds two sentinel pixels and the counter ends at 8.
\<close>

theorem counter_added_once_per_invocation:
  "map_option belowMinMatrix_length
     (dispatch 2 2 1 1 \<lparr>width = 2, height = 2, debug = 0\<rparr>
        \<lparr>resultArrayList = [0, 0, 0, 0], belowMinMatrix_length = 0,
         pixelData = [5, 0, 3, 0], debugData = []\<rparr>) = Some 8
   \<and> length (filter (\<lambda>pixel. pixel = 0) [5, 0, 3, 0 :: u32]) = 2"
  by code_simp

end
